theory Spec2Isabelle
  imports Complex_Main "HOL-Library.AList" "HOL-Library.Sublist"
begin

section \<open>Data frames\<close>

text \<open>
  The pipeline of \<^verbatim>\<open>eda.py\<close> works on pandas data frames. A frame is modelled by
  its list of column names and its list of rows, a row holding one cell per column.
  A cell is a missing value (pandas' NaN, also standing for NaT), a number, a string
  or a parsed timestamp (nanoseconds since the epoch). Numbers are real numbers:
  pandas holds them as floating point numbers, whose sums are rounded and depend on
  the order and the grouping of the additions. Sums are exact here, so an equality
  of two sums proved here holds for the sums of pandas up to that rounding only; an
  equality of counts, of lists of values or of labels holds as it is.
\<close>

datatype cell = NaN | Num real | Str string | Timestamp int

type_synonym row = "cell list"

record frame =
  columns :: "string list"
  rows :: "row list"

text \<open>
  The three ways the script stops with \<^verbatim>\<open>st.error(...); st.stop()\<close>: a file is
  not found (\<^verbatim>\<open>except FileNotFoundError\<close>), no chunk was retained
  (\<^verbatim>\<open>if not sample_rows\<close>, "No data found in sales.csv"), and any other exception
  (\<^verbatim>\<open>except Exception\<close>, "Error loading data"). They carry the names the
  specification gives them.
\<close>

datatype error = MissingInputError | EmptyDatasetError | UnexpectedProcessingError

text \<open>
  What the model takes from Python and pandas as parameters: \<open>str_of\<close> is the text
  an f-string inserts for a value, \<open>to_datetime\<close> is \<^verbatim>\<open>pd.to_datetime\<close> with
  \<^verbatim>\<open>errors="coerce"\<close> on one value, \<open>None\<close> when the value does not parse (NaT).
\<close>

record pyenv =
  str_of :: "cell \<Rightarrow> string"
  to_datetime :: "cell \<Rightarrow> int option"

fun col_index :: "string \<Rightarrow> string list \<Rightarrow> nat" where
  "col_index c [] = 0"
| "col_index c (x # xs) = (if x = c then 0 else Suc (col_index c xs))"

definition cell_at :: "row \<Rightarrow> nat \<Rightarrow> cell" where
  "cell_at r i = (if i < length r then r ! i else NaN)"

definition set_cell :: "nat \<Rightarrow> cell \<Rightarrow> row \<Rightarrow> row" where
  "set_cell i v r =
     (if i < length r then r[i := v] else r @ replicate (i - length r) NaN @ [v])"

text \<open>\<^verbatim>\<open>frame[c]\<close> for a column \<open>c\<close> that the caller has checked to be present.\<close>

definition column :: "string \<Rightarrow> frame \<Rightarrow> cell list" where
  "column c f = map (\<lambda>r. cell_at r (col_index c (columns f))) (rows f)"

text \<open>
  \<^verbatim>\<open>frame[dst] = frame[src].apply(g)\<close>, cell by cell: an existing column \<open>dst\<close> is
  overwritten in place, a new one is appended.
\<close>

definition assign :: "string \<Rightarrow> string \<Rightarrow> (cell \<Rightarrow> cell) \<Rightarrow> frame \<Rightarrow> frame" where
  "assign dst src g f =
     f\<lparr>columns := (if dst \<in> set (columns f) then columns f else columns f @ [dst]),
       rows := map (\<lambda>r. set_cell (col_index dst (columns f))
                           (g (cell_at r (col_index src (columns f)))) r) (rows f)\<rparr>"

text \<open>\<^verbatim>\<open>drop_duplicates\<close> keeps the first of each group of equal rows.\<close>

definition drop_duplicates :: "frame \<Rightarrow> frame" where
  "drop_duplicates f = f\<lparr>rows := rev (remdups (rev (rows f)))\<rparr>"

definition fillna :: "frame \<Rightarrow> frame" where
  "fillna f = f\<lparr>rows := map (map (\<lambda>c. if c = NaN then Num 0 else c)) (rows f)\<rparr>"

text \<open>
  \<^verbatim>\<open>Series.sum()\<close> skips missing values; a string among the numbers makes the
  addition (of the series, or of its sum to the running total) raise. The sum is
  the exact sum of the values; the sum pandas returns is this sum up to the rounding
  of floating point addition.
\<close>

definition is_numeric :: "cell \<Rightarrow> bool" where
  "is_numeric c = (case c of NaN \<Rightarrow> True | Num _ \<Rightarrow> True | _ \<Rightarrow> False)"

definition num_val :: "cell \<Rightarrow> real" where
  "num_val c = (case c of Num x \<Rightarrow> x | _ \<Rightarrow> 0)"

definition series_sum :: "cell list \<Rightarrow> error + real" where
  "series_sum cs =
     (if list_all is_numeric cs then Inr (sum_list (map num_val cs))
      else Inl UnexpectedProcessingError)"

text \<open>
  \<^verbatim>\<open>frame.groupby(key)["revenue"].sum().items()\<close>: one pair per key value, rows
  with a missing key left out. pandas yields the groups in sorted key order, the
  model in order of first appearance; only the order of the entries of the revenue
  dictionaries depends on it.
\<close>

definition group_keys :: "cell list \<Rightarrow> cell list" where
  "group_keys ks = rev (remdups (rev (filter (\<lambda>k. k \<noteq> NaN) ks)))"

definition groupby_sum :: "cell list \<Rightarrow> cell list \<Rightarrow> error + (cell \<times> real) list" where
  "groupby_sum ks vs =
     (if list_all is_numeric vs
      then Inr (map (\<lambda>k. (k, sum_list (map (num_val \<circ> snd) (filter (\<lambda>p. fst p = k) (zip ks vs)))))
                 (group_keys ks))
      else Inl UnexpectedProcessingError)"

section \<open>Dictionaries\<close>

text \<open>
  A Python dictionary is an association list in insertion order with distinct keys:
  storing under a present key keeps the key's position.
\<close>

type_synonym ('k, 'v) dict = "('k \<times> 'v) list"

definition dict_get :: "('k, 'v) dict \<Rightarrow> 'k \<Rightarrow> 'v \<Rightarrow> 'v" where
  "dict_get d k dflt = (case map_of d k of Some v \<Rightarrow> v | None \<Rightarrow> dflt)"

definition dict_set :: "('k, 'v) dict \<Rightarrow> 'k \<Rightarrow> 'v \<Rightarrow> ('k, 'v) dict" where
  "dict_set d k v = AList.update k v d"

text \<open>\<^verbatim>\<open>dict(zip(ks, vs))\<close>: \<open>zip\<close> stops at the shorter of the two.\<close>

definition dict_zip :: "'k list \<Rightarrow> 'v list \<Rightarrow> ('k, 'v) dict" where
  "dict_zip ks vs = fold (\<lambda>(k, v) d. dict_set d k v) (zip ks vs) []"

section \<open>The lookup tables\<close>

text \<open>
  \<^verbatim>\<open>load_support_data\<close> reads the two lookup files whole; a file that is absent is
  \<open>None\<close>.
\<close>

definition load_support_data :: "frame option \<Rightarrow> frame option \<Rightarrow> error + (frame \<times> frame)" where
  "load_support_data products_file cities_file =
     (case products_file of
        None \<Rightarrow> Inl MissingInputError
      | Some products \<Rightarrow>
          (case cities_file of
             None \<Rightarrow> Inl MissingInputError
           | Some cities \<Rightarrow> Inr (products, cities)))"

text \<open>
  \<^verbatim>\<open>dict(zip(t[id_col], t.get(name_col, t.columns[1])))\<close>. \<^verbatim>\<open>t.get\<close> returns the
  column \<open>name_col\<close> when the table has it and its second argument otherwise, and
  that argument is \<^verbatim>\<open>t.columns[1]\<close>: the name of the second column, a string.
  Zipping the ids with a string pairs them with its characters. A table without
  \<open>id_col\<close> raises KeyError and a table of one column IndexError, both caught by
  \<^verbatim>\<open>except Exception\<close>.
\<close>

definition lookup_dict :: "string \<Rightarrow> string \<Rightarrow> frame \<Rightarrow> error + (cell, cell) dict" where
  "lookup_dict id_col name_col t =
     (if id_col \<notin> set (columns t) then Inl UnexpectedProcessingError
      else if length (columns t) < 2 then Inl UnexpectedProcessingError
      else Inr (dict_zip (column id_col t)
                  (if name_col \<in> set (columns t) then column name_col t
                   else map (\<lambda>ch. Str [ch]) (columns t ! 1))))"

section \<open>The chunked aggregation\<close>

record agg_data =
  total_revenue :: real
  total_transactions :: int
  min_date :: "int option"
  max_date :: "int option"
  product_revenue :: "(cell, real) dict"
  city_revenue :: "(cell, real) dict"
  dates :: "int list"

text \<open>
  The state of the loop over the chunks. \<^verbatim>\<open>chunk_count\<close> only feeds the progress
  bar and the status text, which are not modelled.
\<close>

record loop_state =
  agg :: agg_data
  sample_rows :: "frame list"

definition init_state :: loop_state where
  "init_state =
     \<lparr>agg = \<lparr>total_revenue = 0, total_transactions = 0, min_date = None, max_date = None,
             product_revenue = [], city_revenue = [], dates = []\<rparr>,
      sample_rows = []\<rparr>"

definition parse_cell :: "pyenv \<Rightarrow> cell \<Rightarrow> cell" where
  "parse_cell E c = (case to_datetime E c of Some t \<Rightarrow> Timestamp t | None \<Rightarrow> NaN)"

text \<open>
  The chunk after \<^verbatim>\<open>drop_duplicates\<close>, \<^verbatim>\<open>fillna(0)\<close> and, when it has a
  \<open>date\<close> column, the conversion of that column by \<^verbatim>\<open>pd.to_datetime\<close>, in
  this order.
\<close>

definition clean :: "pyenv \<Rightarrow> frame \<Rightarrow> frame" where
  "clean E raw =
     (let chunk = fillna (drop_duplicates raw)
      in if ''date'' \<in> set (columns chunk)
         then assign ''date'' ''date'' (parse_cell E) chunk else chunk)"

text \<open>\<^verbatim>\<open>chunk["date"].dropna().tolist()\<close>\<close>

definition dropna_dates :: "cell list \<Rightarrow> int list" where
  "dropna_dates cs = concat (map (\<lambda>c. case c of Timestamp t \<Rightarrow> [t] | _ \<Rightarrow> []) cs)"

text \<open>\<^verbatim>\<open>names.get(k, f"Product {k}")\<close>, with the label \<open>Product \<close> or \<open>Store \<close>.\<close>

definition resolve :: "pyenv \<Rightarrow> string \<Rightarrow> (cell, cell) dict \<Rightarrow> cell \<Rightarrow> cell" where
  "resolve E label names k = dict_get names k (Str (label @ str_of E k))"

definition add_revenue ::
  "pyenv \<Rightarrow> string \<Rightarrow> (cell, cell) dict \<Rightarrow> (cell \<times> real) list \<Rightarrow> (cell, real) dict
     \<Rightarrow> (cell, real) dict" where
  "add_revenue E label names groups acc =
     fold (\<lambda>(k, rev) d. let name = resolve E label names k
                         in dict_set d name (dict_get d name 0 + rev)) groups acc"

definition revenue_by :: "string \<Rightarrow> frame \<Rightarrow> error + (cell \<times> real) list" where
  "revenue_by key chunk =
     (if key \<in> set (columns chunk) \<and> ''revenue'' \<in> set (columns chunk)
      then groupby_sum (column key chunk) (column ''revenue'' chunk)
      else Inr [])"

text \<open>\<^verbatim>\<open>Series.map(d)\<close> gives NaN for a value that is not a key of \<open>d\<close>.\<close>

definition enrich :: "(cell, cell) dict \<Rightarrow> (cell, cell) dict \<Rightarrow> frame \<Rightarrow> frame" where
  "enrich products_dict cities_dict chunk =
     (let m1 = (if ''product_id'' \<in> set (columns chunk)
                then assign ''product_name'' ''product_id'' (\<lambda>k. dict_get products_dict k NaN) chunk
                else chunk)
      in if ''store_id'' \<in> set (columns m1)
         then assign ''city'' ''store_id'' (\<lambda>k. dict_get cities_dict k NaN) m1
         else m1)"

text \<open>The body of the loop over the chunks.\<close>

definition process_chunk ::
  "pyenv \<Rightarrow> (cell, cell) dict \<Rightarrow> (cell, cell) dict \<Rightarrow> loop_state \<Rightarrow> frame
     \<Rightarrow> error + loop_state" where
  "process_chunk E products_dict cities_dict st raw =
     (let chunk = clean E raw;
          a = agg st;
          a1 = (if ''date'' \<in> set (columns chunk)
                then a\<lparr>dates := dates a @ dropna_dates (column ''date'' chunk)\<rparr> else a)
      in case (if ''revenue'' \<in> set (columns chunk)
               then series_sum (column ''revenue'' chunk) else Inr 0) of
           Inl e \<Rightarrow> Inl e
         | Inr s \<Rightarrow>
            (let a2 = a1\<lparr>total_revenue := total_revenue a1 + s,
                         total_transactions := total_transactions a1 + int (length (rows chunk))\<rparr>
             in case revenue_by ''product_id'' chunk of
                  Inl e \<Rightarrow> Inl e
                | Inr pg \<Rightarrow>
                   (case revenue_by ''store_id'' chunk of
                      Inl e \<Rightarrow> Inl e
                    | Inr sg \<Rightarrow>
                       Inr \<lparr>agg = a2\<lparr>product_revenue :=
                                        add_revenue E ''Product '' products_dict pg (product_revenue a2),
                                      city_revenue :=
                                        add_revenue E ''Store '' cities_dict sg (city_revenue a2)\<rparr>,
                            sample_rows =
                              (if length (sample_rows st) < 3
                               then sample_rows st @ [enrich products_dict cities_dict chunk]
                               else sample_rows st)\<rparr>)))"

fun run_loop ::
  "pyenv \<Rightarrow> (cell, cell) dict \<Rightarrow> (cell, cell) dict \<Rightarrow> loop_state \<Rightarrow> frame list
     \<Rightarrow> error + loop_state" where
  "run_loop E pd cd st [] = Inr st"
| "run_loop E pd cd st (c # cs) =
     (case process_chunk E pd cd st c of
        Inl e \<Rightarrow> Inl e
      | Inr st' \<Rightarrow> run_loop E pd cd st' cs)"

text \<open>
  \<^verbatim>\<open>pd.read_csv("sales.csv", chunksize=chunksize)\<close>. A chunk size below 1 is
  rejected (ValueError), an absent file raises FileNotFoundError, a file without a
  header line raises EmptyDataError. The reader then yields the rows in chunks of
  \<open>chunksize\<close> rows, the last one possibly shorter; for a file that has a header
  and no rows its first read yields one frame without rows.
\<close>

function split_rows :: "nat \<Rightarrow> 'a list \<Rightarrow> 'a list list" where
  "split_rows n xs = (if n = 0 \<or> xs = [] then [] else take n xs # split_rows n (drop n xs))"
  by pat_completeness auto
termination
  by (relation "measure (\<lambda>(n, xs). length xs)") auto

declare split_rows.simps [simp del]

definition read_csv_chunks :: "int \<Rightarrow> frame option \<Rightarrow> error + frame list" where
  "read_csv_chunks chunksize file =
     (if chunksize < 1 then Inl UnexpectedProcessingError
      else case file of
             None \<Rightarrow> Inl MissingInputError
           | Some f \<Rightarrow>
               if columns f = [] then Inl UnexpectedProcessingError
               else if rows f = [] then Inr [f]
               else Inr (map (\<lambda>rs. f\<lparr>rows := rs\<rparr>) (split_rows (nat chunksize) (rows f))))"

text \<open>\<^verbatim>\<open>pd.concat(frames, ignore_index=True)\<close> of frames that have the same columns.\<close>

definition concat_frames :: "frame list \<Rightarrow> frame" where
  "concat_frames fs =
     (case fs of [] \<Rightarrow> \<lparr>columns = [], rows = []\<rparr>
      | f # _ \<Rightarrow> f\<lparr>rows := concat (map rows fs)\<rparr>)"

definition iloc_head :: "nat \<Rightarrow> frame \<Rightarrow> frame" where
  "iloc_head n f = f\<lparr>rows := take n (rows f)\<rparr>"

text \<open>What follows the loop: the check of the sample, its cap, and the date range.\<close>

definition finish ::
  "loop_state \<Rightarrow> frame \<Rightarrow> frame \<Rightarrow> error + (agg_data \<times> frame \<times> frame \<times> frame)" where
  "finish st products cities =
     (if sample_rows st = [] then Inl EmptyDatasetError
      else let sample_df = iloc_head 50000 (concat_frames (sample_rows st));
               a = agg st;
               a' = (case dates a of
                       [] \<Rightarrow> a
                     | d # ds \<Rightarrow> a\<lparr>min_date := Some (fold min ds d),
                                   max_date := Some (fold max ds d), dates := []\<rparr>)
           in Inr (a', sample_df, products, cities))"

definition load_sales_chunked ::
  "pyenv \<Rightarrow> int \<Rightarrow> frame option \<Rightarrow> frame option \<Rightarrow> frame option
     \<Rightarrow> error + (agg_data \<times> frame \<times> frame \<times> frame)" where
  "load_sales_chunked E chunksize products_file cities_file sales_file =
     (case load_support_data products_file cities_file of
        Inl e \<Rightarrow> Inl e
      | Inr (products, cities) \<Rightarrow>
         (case lookup_dict ''product_id'' ''product_name'' products of
            Inl e \<Rightarrow> Inl e
          | Inr products_dict \<Rightarrow>
             (case lookup_dict ''store_id'' ''city'' cities of
                Inl e \<Rightarrow> Inl e
              | Inr cities_dict \<Rightarrow>
                 (case read_csv_chunks chunksize sales_file of
                    Inl e \<Rightarrow> Inl e
                  | Inr chunks \<Rightarrow>
                     (case run_loop E products_dict cities_dict init_state chunks of
                        Inl e \<Rightarrow> Inl e
                      | Inr st \<Rightarrow> finish st products cities)))))"

section \<open>Derived metrics\<close>

datatype py_exception = ZeroDivisionError

definition truediv :: "real \<Rightarrow> real \<Rightarrow> py_exception + real" where
  "truediv a b = (if b = 0 then Inl ZeroDivisionError else Inr (a / b))"

text \<open>
  \<^verbatim>\<open>avg_ticket = total_revenue / total_sales_count if total_sales_count > 0 else 0\<close>
\<close>

definition avg_ticket :: "real \<Rightarrow> int \<Rightarrow> py_exception + real" where
  "avg_ticket revenue_total total_sales_count =
     (if total_sales_count > 0 then truediv revenue_total (of_int total_sales_count)
      else Inr 0)"

section \<open>Notions used in the statements\<close>



definition chunk_revenue :: "pyenv \<Rightarrow> frame \<Rightarrow> real" where
  "chunk_revenue E raw =
     (if ''revenue'' \<in> set (columns raw)
      then sum_list (map num_val (column ''revenue'' (clean E raw))) else 0)"

definition chunk_dates :: "pyenv \<Rightarrow> frame \<Rightarrow> int list" where
  "chunk_dates E raw =
     (if ''date'' \<in> set (columns raw) then dropna_dates (column ''date'' (clean E raw)) else [])"



text \<open>
  The revenue of the rows of a cleaned chunk whose key (product or store id) is
  present and is resolved to the display name \<open>name\<close>; 0 when the chunk lacks
  the key column or the revenue column.
\<close>

definition bucket_revenue ::
  "pyenv \<Rightarrow> string \<Rightarrow> (cell, cell) dict \<Rightarrow> string \<Rightarrow> cell \<Rightarrow> frame \<Rightarrow> real" where
  "bucket_revenue E label names key name chunk =
     (if key \<in> set (columns chunk) \<and> ''revenue'' \<in> set (columns chunk)
      then sum_list (map (num_val \<circ> snd)
             (filter (\<lambda>p. fst p \<noteq> NaN \<and> resolve E label names (fst p) = name)
                (zip (column key chunk) (column ''revenue'' chunk))))
      else 0)"

section \<open>Example inputs\<close>

text \<open>
  An environment for the examples: whole numbers are formatted as Python formats
  integers, strings as themselves; a number converts to the timestamp that many
  nanoseconds after the epoch (the default unit of \<^verbatim>\<open>pd.to_datetime\<close>), and
  \<open>1970-01-02\<close> is the one date string that parses.
\<close>

function str_nat :: "nat \<Rightarrow> string" where
  "str_nat n =
     (if n < 10 then [''0123456789'' ! n]
      else str_nat (n div 10) @ [''0123456789'' ! (n mod 10)])"
  by pat_completeness auto
termination
  by (relation "measure id") auto

declare str_nat.simps [simp del]

definition example_env :: pyenv where
  "example_env =
     \<lparr>str_of = (\<lambda>c. case c of
                       Str s \<Rightarrow> s
                     | Num x \<Rightarrow> (if x < 0 then ''-'' @ str_nat (nat \<lfloor>- x\<rfloor>) else str_nat (nat \<lfloor>x\<rfloor>))
                     | NaN \<Rightarrow> ''nan''
                     | Timestamp t \<Rightarrow> ''NaT''),
      to_datetime = (\<lambda>c. case c of
                            Num x \<Rightarrow> Some \<lfloor>x\<rfloor>
                          | Timestamp t \<Rightarrow> Some t
                          | Str s \<Rightarrow> (if s = ''1970-01-02'' then Some 86400000000000 else None)
                          | NaN \<Rightarrow> None)\<rparr>"

definition example_products :: frame where
  "example_products =
     \<lparr>columns = [''product_id'', ''product_name''], rows = [[Num 1, Str ''Tea'']]\<rparr>"

definition example_cities :: frame where
  "example_cities = \<lparr>columns = [''store_id'', ''city''], rows = [[Num 1, Str ''Pune'']]\<rparr>"

text \<open>A product table whose name column is not called \<open>product_name\<close>.\<close>

definition unnamed_products :: frame where
  "unnamed_products =
     \<lparr>columns = [''product_id'', ''category''], rows = [[Num 1, Str ''Toys'']]\<rparr>"

text \<open>A sales file with a header and no rows.\<close>

definition header_only_sales :: frame where
  "header_only_sales =
     \<lparr>columns = [''date'', ''revenue'', ''product_id'', ''store_id''], rows = []\<rparr>"

text \<open>A sales file of one row whose date is missing.\<close>

definition undated_sales :: frame where
  "undated_sales =
     \<lparr>columns = [''date'', ''revenue'', ''product_id'', ''store_id''],
      rows = [[NaN, Num 5, Num 1, Num 1]]\<rparr>"

text \<open>A sales file of four different rows; product 7 and store 9 are in no lookup table.\<close>

definition example_sales :: frame where
  "example_sales =
     \<lparr>columns = [''date'', ''revenue'', ''product_id'', ''store_id''],
      rows = [[Str ''1970-01-02'', Num 5, Num 1, Num 1],
              [NaN, Num 3, Num 7, Num 9],
              [Str ''soon'', Num 2, Num 7, Num 1],
              [Str ''1970-01-02'', NaN, Num 1, Num 9]]\<rparr>"

text \<open>A sales file that holds the same row twice.\<close>

definition duplicated_sales :: frame where
  "duplicated_sales =
     \<lparr>columns = [''date'', ''revenue'', ''product_id'', ''store_id''],
      rows = [[Str ''1970-01-02'', Num 5, Num 1, Num 1],
              [Str ''1970-01-02'', Num 5, Num 1, Num 1]]\<rparr>"

text \<open>A sales file without a revenue column.\<close>

definition unpriced_sales :: frame where
  "unpriced_sales =
     \<lparr>columns = [''date'', ''product_id''],
      rows = [[NaN, Num 1], [NaN, Num 1], [Str ''soon'', Num 2]]\<rparr>"

section \<open>Evaluation\<close>

lemmas pipeline_defs =
  load_sales_chunked_def load_support_data_def lookup_dict_def dict_zip_def dict_set_def
  dict_get_def column_def cell_at_def set_cell_def read_csv_chunks_def process_chunk_def
  clean_def fillna_def drop_duplicates_def assign_def init_state_def series_sum_def
  revenue_by_def groupby_sum_def group_keys_def add_revenue_def enrich_def finish_def
  concat_frames_def iloc_head_def dropna_dates_def parse_cell_def resolve_def
  is_numeric_def num_val_def

lemmas example_defs =
  example_env_def example_products_def example_cities_def unnamed_products_def
  header_only_sales_def undated_sales_def example_sales_def duplicated_sales_def
  unpriced_sales_def

lemma split_rows_Nil: "split_rows n [] = []"
  by (simp add: split_rows.simps)

lemma split_rows_Cons:
  "0 < n \<Longrightarrow> split_rows n (x # xs) = take n (x # xs) # split_rows n (drop n (x # xs))"
  by (subst split_rows.simps) simp

lemma str_nat_digit: "n < 10 \<Longrightarrow> str_nat n = [''0123456789'' ! n]"
  by (subst str_nat.simps) simp

section \<open>The lookup tables: positional fallback\<close>

text \<open>
  C2. Without a \<open>product_name\<close> column the ids are not paired with the values of
  the second column: on the table with the columns \<open>product_id\<close>, \<open>category\<close> and
  the one row \<open>(1, Toys)\<close> the dictionary maps the id 1 to \<open>c\<close>, the first
  character of the second column's name, and not to \<open>Toys\<close>.
\<close>

theorem lookup_dict_pairs_ids_with_characters:
  "lookup_dict ''product_id'' ''product_name'' unnamed_products = Inr [(Num 1, Str ''c'')]"
  by (simp add: pipeline_defs example_defs)

section \<open>The empty dataset\<close>

text \<open>
  C8. A sales file with a header and no rows does not stop the pipeline: the reader
  yields one chunk without rows, the chunk is retained for the sample, the list of
  retained chunks is not empty, and the pipeline returns aggregates that are all
  zero together with a sample without rows.
\<close>

theorem header_only_sales_returns_result:
  "load_sales_chunked example_env 100000 (Some example_products) (Some example_cities)
       (Some header_only_sales) =
     Inr (\<lparr>total_revenue = 0, total_transactions = 0, min_date = None, max_date = None,
            product_revenue = [], city_revenue = [], dates = []\<rparr>,
          \<lparr>columns = [''date'', ''revenue'', ''product_id'', ''store_id'', ''product_name'',
                       ''city''],
            rows = []\<rparr>,
          example_products, example_cities)"
  by (simp add: pipeline_defs example_defs)

section \<open>Missing dates\<close>

text \<open>
  C3. A row whose date is missing contributes a date: \<^verbatim>\<open>fillna(0)\<close> runs before
  the conversion of the date column, the missing date is the number 0 when it is
  converted, and the number 0 converts to the epoch. On a file of one row with a
  missing date both ends of the date range are the epoch.
\<close>

theorem missing_date_contributes_epoch:
  "map_sum id (\<lambda>(a, _). (min_date a, max_date a))
       (load_sales_chunked example_env 100000 (Some example_products) (Some example_cities)
          (Some undated_sales)) =
     Inr (Some 0, Some 0)"
  by (simp add: pipeline_defs example_defs split_rows_Nil split_rows_Cons)

section \<open>Average ticket\<close>

text \<open>
  C9. The average ticket is the total revenue divided by the number of transactions
  when that number is positive and 0 when it is 0, and the division never raises.
\<close>

theorem avg_ticket_total:
  "(0 < n \<longrightarrow> avg_ticket r n = Inr (r / of_int n)) \<and>
   (n = 0 \<longrightarrow> avg_ticket r n = Inr 0) \<and>
   avg_ticket r n \<noteq> Inl ZeroDivisionError"
  by (simp add: avg_ticket_def truediv_def)

theorem avg_ticket_total_witness:
  "avg_ticket 10 4 = Inr (5 / 2) \<and> avg_ticket 10 0 = Inr 0 \<and>
   avg_ticket 10 4 \<noteq> Inl ZeroDivisionError"
  using avg_ticket_total [of 4 10] avg_ticket_total [of 0 10] by simp

section \<open>Frames and cleaning\<close>

lemma col_index_le: "col_index c cols \<le> length cols"
  by (induction cols) auto

lemma col_index_less: "c \<in> set cols \<Longrightarrow> col_index c cols < length cols"
  by (induction cols) auto

lemma col_index_absent: "c \<notin> set cols \<Longrightarrow> col_index c cols = length cols"
  by (induction cols) auto

lemma col_index_append: "c \<in> set cols \<Longrightarrow> col_index c (cols @ ys) = col_index c cols"
  by (induction cols) auto

lemma col_index_append_new: "c \<notin> set cols \<Longrightarrow> col_index c (cols @ [c]) = length cols"
  by (induction cols) auto

lemma nth_col_index: "c \<in> set cols \<Longrightarrow> cols ! col_index c cols = c"
  by (induction cols) auto

lemma col_index_inj: "a \<in> set cols \<Longrightarrow> col_index a cols = col_index b cols \<Longrightarrow> a = b"
proof (cases "b \<in> set cols")
  case True
  assume "a \<in> set cols" "col_index a cols = col_index b cols"
  with True show ?thesis by (metis nth_col_index)
next
  case False
  assume "a \<in> set cols" "col_index a cols = col_index b cols"
  with False show ?thesis using col_index_less [of a cols] col_index_absent [of b cols] by simp
qed

lemma cell_at_set_cell_same: "cell_at (set_cell i v r) i = v"
  by (simp add: cell_at_def set_cell_def nth_append)

lemma cell_at_set_cell_other: "j \<noteq> i \<Longrightarrow> cell_at (set_cell i v r) j = cell_at r j"
  by (auto simp: cell_at_def set_cell_def nth_append nth_Cons')

lemma columns_drop_duplicates: "columns (drop_duplicates f) = columns f"
  by (simp add: drop_duplicates_def)

lemma columns_fillna: "columns (fillna f) = columns f"
  by (simp add: fillna_def)

lemma columns_clean: "columns (clean E f) = columns f"
  by (simp add: clean_def Let_def assign_def columns_fillna columns_drop_duplicates)



lemma length_keep_first: "length (rev (remdups (rev xs))) = card (set xs)"
  by (simp add: length_remdups_card_conv)





lemma process_chunk_totals:
  assumes "process_chunk E pd cd st raw = Inr st'"
  shows "total_revenue (agg st') = total_revenue (agg st) + chunk_revenue E raw"
    and "total_transactions (agg st') = total_transactions (agg st) + int (length (rows (clean E raw)))"
    and "dates (agg st') = dates (agg st) @ chunk_dates E raw"
    and "sample_rows st' = (if length (sample_rows st) < 3
           then sample_rows st @ [enrich pd cd (clean E raw)] else sample_rows st)"
  using assms
  by (auto simp: process_chunk_def Let_def series_sum_def chunk_revenue_def chunk_dates_def columns_clean
      split: if_splits sum.splits)

section \<open>The loop over the chunks\<close>




lemma run_loop_sample:
  "run_loop E pd cd st cs = Inr st' \<Longrightarrow> length (sample_rows st) \<le> 3 \<Longrightarrow>
     sample_rows st' = take 3 (sample_rows st @ map (\<lambda>c. enrich pd cd (clean E c)) cs)"
proof (induction cs arbitrary: st)
  case Nil
  then show ?case by simp
next
  case (Cons c cs)
  then obtain st1 where st1: "process_chunk E pd cd st c = Inr st1"
    and rest: "run_loop E pd cd st1 cs = Inr st'"
    by (auto split: sum.splits)
  note s1 = process_chunk_totals(4) [OF st1]
  show ?case
  proof (cases "length (sample_rows st) < 3")
    case True
    with s1 have "sample_rows st1 = sample_rows st @ [enrich pd cd (clean E c)]" by simp
    moreover from this True have "length (sample_rows st1) \<le> 3" by simp
    ultimately show ?thesis using Cons.IH [OF rest] by simp
  next
    case False
    with Cons.prems have len: "length (sample_rows st) = 3" by simp
    with s1 have "sample_rows st1 = sample_rows st" by simp
    then show ?thesis using Cons.IH [OF rest] len by simp
  qed
qed

lemma concat_split_rows: "0 < n \<Longrightarrow> concat (split_rows n xs) = xs"
proof (induction n xs rule: split_rows.induct)
  case (1 n xs)
  show ?case
  proof (cases "xs = []")
    case True
    then show ?thesis by (simp add: split_rows.simps)
  next
    case False
    with 1 have "concat (split_rows n (drop n xs)) = drop n xs" by simp
    with False 1 show ?thesis by (subst split_rows.simps) simp
  qed
qed

lemma split_rows_nonempty: "0 < n \<Longrightarrow> xs \<noteq> [] \<Longrightarrow> split_rows n xs \<noteq> []"
  by (subst split_rows.simps) simp

lemma read_csv_chunks_Inr:
  assumes "read_csv_chunks n file = Inr chunks"
  shows "\<exists>f. file = Some f \<and> 1 \<le> n \<and> columns f \<noteq> [] \<and> chunks \<noteq> [] \<and>
           (\<forall>c \<in> set chunks. columns c = columns f) \<and> concat (map rows chunks) = rows f"
proof -
  from assms obtain f where f: "file = Some f" and n: "1 \<le> n" and cols: "columns f \<noteq> []"
    by (auto simp: read_csv_chunks_def split: if_splits option.splits)
  show ?thesis
  proof (cases "rows f = []")
    case True
    with assms f n cols have "chunks = [f]" by (simp add: read_csv_chunks_def)
    with True f n cols show ?thesis by simp
  next
    case False
    with assms f n cols
    have ch: "chunks = map (\<lambda>rs. f\<lparr>rows := rs\<rparr>) (split_rows (nat n) (rows f))"
      by (simp add: read_csv_chunks_def)
    have "map rows chunks = split_rows (nat n) (rows f)"
      unfolding ch by (simp add: comp_def)
    then have "concat (map rows chunks) = rows f"
      using n by (simp add: concat_split_rows)
    moreover have "chunks \<noteq> []" using ch False n by (simp add: split_rows_nonempty)
    moreover have "\<forall>c \<in> set chunks. columns c = columns f" using ch by auto
    ultimately show ?thesis using f n cols by simp
  qed
qed

lemma finish_Inr:
  "finish st p c = Inr (a, smp, p', c') \<Longrightarrow>
     total_revenue a = total_revenue (agg st) \<and>
     total_transactions a = total_transactions (agg st) \<and>
     product_revenue a = product_revenue (agg st) \<and>
     city_revenue a = city_revenue (agg st) \<and>
     smp = iloc_head 50000 (concat_frames (sample_rows st)) \<and> p' = p \<and> c' = c"
  by (auto simp: finish_def Let_def split: if_splits list.splits)

text \<open>What a successful load went through.\<close>

lemma load_sales_chunked_Inr:
  assumes "load_sales_chunked E n pf cf sf = Inr (a, smp, p, c)"
  shows "\<exists>pd cd chunks st.
           pf = Some p \<and> cf = Some c \<and>
           lookup_dict ''product_id'' ''product_name'' p = Inr pd \<and>
           lookup_dict ''store_id'' ''city'' c = Inr cd \<and>
           read_csv_chunks n sf = Inr chunks \<and>
           run_loop E pd cd init_state chunks = Inr st \<and>
           finish st p c = Inr (a, smp, p, c)"
  using assms
  by (auto simp: load_sales_chunked_def load_support_data_def finish_def Let_def
      split: sum.splits option.splits if_splits)

section \<open>Chunk-size independence\<close>


















section \<open>Enrichment\<close>

lemma rows_concat_frames: "rows (concat_frames fs) = concat (map rows fs)"
  by (simp add: concat_frames_def split: list.splits)

lemma columns_concat_frames: "fs \<noteq> [] \<Longrightarrow> columns (concat_frames fs) = columns (hd fs)"
  by (simp add: concat_frames_def split: list.splits)

lemma length_rows_assign: "length (rows (assign dst src g f)) = length (rows f)"
  by (simp add: assign_def)

lemma length_rows_enrich: "length (rows (enrich pd cd f)) = length (rows f)"
  by (simp add: enrich_def Let_def length_rows_assign)

lemma col_index_assign:
  "c \<in> set (columns f) \<or> c = dst \<Longrightarrow>
     col_index c (columns (assign dst src g f)) = col_index c (columns f)"
  by (auto simp: assign_def col_index_append col_index_append_new col_index_absent)

lemma columns_assign_mono: "c \<in> set (columns f) \<Longrightarrow> c \<in> set (columns (assign dst src g f))"
  by (simp add: assign_def)

lemma dst_in_columns_assign: "dst \<in> set (columns (assign dst src g f))"
  by (simp add: assign_def)

lemma columns_assign_cases:
  "c \<in> set (columns (assign dst src g f)) \<Longrightarrow> c \<in> set (columns f) \<or> c = dst"
  by (auto simp: assign_def split: if_splits)

text \<open>After \<open>assign\<close>, the new column holds \<open>g\<close> of the source column, row by row.\<close>

lemma assign_cell:
  assumes "r \<in> set (rows (assign dst src g f))" and "src \<in> set (columns f)" and "src \<noteq> dst"
  shows "cell_at r (col_index dst (columns (assign dst src g f))) =
         g (cell_at r (col_index src (columns (assign dst src g f))))"
proof -
  let ?i = "col_index dst (columns f)" and ?j = "col_index src (columns f)"
  from assms(1) obtain r0 where r0: "r0 \<in> set (rows f)"
    and r: "r = set_cell ?i (g (cell_at r0 ?j)) r0"
    by (auto simp: assign_def)
  have ne: "?j \<noteq> ?i" using col_index_inj [OF assms(2)] assms(3) by blast
  have "col_index dst (columns (assign dst src g f)) = ?i"
    and "col_index src (columns (assign dst src g f)) = ?j"
    using assms(2) by (simp_all add: col_index_assign)
  then show ?thesis using ne r by (simp add: cell_at_set_cell_same cell_at_set_cell_other)
qed

text \<open>\<open>assign\<close> keeps what holds between two other columns.\<close>

lemma assign_keeps:
  assumes "\<forall>r \<in> set (rows f). cell_at r (col_index a (columns f)) = h (cell_at r (col_index b (columns f)))"
    and "a \<in> set (columns f)" and "b \<in> set (columns f)" and "a \<noteq> dst" and "b \<noteq> dst"
    and "r \<in> set (rows (assign dst src g f))"
  shows "cell_at r (col_index a (columns (assign dst src g f))) =
         h (cell_at r (col_index b (columns (assign dst src g f))))"
proof -
  let ?i = "col_index dst (columns f)"
  from assms(6) obtain r0 v where r0: "r0 \<in> set (rows f)" and r: "r = set_cell ?i v r0"
    by (auto simp: assign_def)
  have na: "col_index a (columns f) \<noteq> ?i" using col_index_inj [OF assms(2)] assms(4) by blast
  have nb: "col_index b (columns f) \<noteq> ?i" using col_index_inj [OF assms(3)] assms(5) by blast
  have "col_index a (columns (assign dst src g f)) = col_index a (columns f)"
    and "col_index b (columns (assign dst src g f)) = col_index b (columns f)"
    using assms(2,3) by (simp_all add: col_index_assign)
  then show ?thesis using na nb r r0 assms(1) by (simp add: cell_at_set_cell_other)
qed

lemma enrich_product_name:
  assumes "''product_id'' \<in> set (columns f)" and "r \<in> set (rows (enrich pd cd f))"
  shows "cell_at r (col_index ''product_name'' (columns (enrich pd cd f))) =
         dict_get pd (cell_at r (col_index ''product_id'' (columns (enrich pd cd f)))) NaN"
proof -
  let ?m1 = "assign ''product_name'' ''product_id'' (\<lambda>k. dict_get pd k NaN) f"
  have m1: "\<forall>r \<in> set (rows ?m1). cell_at r (col_index ''product_name'' (columns ?m1)) =
              dict_get pd (cell_at r (col_index ''product_id'' (columns ?m1))) NaN"
    using assign_cell [of _ "''product_name''" "''product_id''" _ f] assms(1) by simp
  show ?thesis
  proof (cases "''store_id'' \<in> set (columns ?m1)")
    case False
    then show ?thesis using assms m1 by (simp add: enrich_def Let_def)
  next
    case True
    then have e: "enrich pd cd f = assign ''city'' ''store_id'' (\<lambda>k. dict_get cd k NaN) ?m1"
      using assms(1) by (simp add: enrich_def Let_def)
    show ?thesis
      unfolding e
      by (rule assign_keeps [OF m1])
        (use assms e in \<open>simp_all add: dst_in_columns_assign columns_assign_mono\<close>)
  qed
qed

lemma store_id_enriched:
  assumes "''store_id'' \<in> set (columns f)"
  shows "''store_id'' \<in> set (columns (if ''product_id'' \<in> set (columns f)
            then assign ''product_name'' ''product_id'' g f else f))"
  using assms by (simp add: columns_assign_mono)

lemma enrich_city:
  assumes "''store_id'' \<in> set (columns f)" and "r \<in> set (rows (enrich pd cd f))"
  shows "cell_at r (col_index ''city'' (columns (enrich pd cd f))) =
         dict_get cd (cell_at r (col_index ''store_id'' (columns (enrich pd cd f)))) NaN"
proof -
  let ?m1 = "if ''product_id'' \<in> set (columns f)
             then assign ''product_name'' ''product_id'' (\<lambda>k. dict_get pd k NaN) f else f"
  have s: "''store_id'' \<in> set (columns ?m1)" using assms(1) by (rule store_id_enriched)
  then have e: "enrich pd cd f = assign ''city'' ''store_id'' (\<lambda>k. dict_get cd k NaN) ?m1"
    by (simp add: enrich_def Let_def)
  show ?thesis
    unfolding e by (rule assign_cell) (use assms(2) e s in simp_all)
qed

lemma columns_enrich_cong: "columns f = columns g \<Longrightarrow> columns (enrich pd cd f) = columns (enrich pd cd g)"
  by (simp add: enrich_def Let_def assign_def)

lemma dict_get_absent: "k \<notin> fst ` set d \<Longrightarrow> dict_get d k dflt = dflt"
  by (simp add: dict_get_def map_of_eq_None_iff [THEN iffD2])

section \<open>Transactions and the sample\<close>


lemma sample_of_load:
  assumes "load_sales_chunked E n pf cf sf = Inr (a, smp, p, c)"
    and "read_csv_chunks n sf = Inr chunks"
    and "lookup_dict ''product_id'' ''product_name'' p = Inr pd"
    and "lookup_dict ''store_id'' ''city'' c = Inr cd"
  shows "smp = iloc_head 50000
           (concat_frames (take 3 (map (\<lambda>ch. enrich pd cd (clean E ch)) chunks)))"
proof -
  from load_sales_chunked_Inr [OF assms(1)] assms(2-4) obtain st where
    loop: "run_loop E pd cd init_state chunks = Inr st"
    and fin: "finish st p c = Inr (a, smp, p, c)" by auto
  have "sample_rows st = take 3 (map (\<lambda>ch. enrich pd cd (clean E ch)) chunks)"
    using run_loop_sample [OF loop] by (simp add: init_state_def)
  then show ?thesis using finish_Inr [OF fin] by simp
qed

lemma length_concat_enriched:
  "length (concat (map (\<lambda>ch. rows (enrich pd cd (clean E ch))) cs)) =
     sum_list (map (\<lambda>ch. length (rows (clean E ch))) cs)"
  by (induction cs) (simp_all add: length_rows_enrich)

text \<open>
  C4. The sample has as many rows as the first three cleaned chunks together, at most
  50000; its rows are a prefix, in read order, of the rows of all cleaned chunks
  (each with the name columns of the enrichment); and it is made of the first
  three chunks only.
\<close>

theorem sample_is_capped_prefix:
  assumes "load_sales_chunked E n pf cf sf = Inr (a, smp, p, c)"
    and "read_csv_chunks n sf = Inr chunks"
    and "lookup_dict ''product_id'' ''product_name'' p = Inr pd"
    and "lookup_dict ''store_id'' ''city'' c = Inr cd"
  shows "length (rows smp) =
           min (sum_list (map (\<lambda>ch. length (rows (clean E ch))) (take 3 chunks))) 50000 \<and>
         prefix (rows smp) (concat (map (\<lambda>ch. rows (enrich pd cd (clean E ch))) chunks)) \<and>
         rows smp = take 50000 (concat (map (\<lambda>ch. rows (enrich pd cd (clean E ch))) (take 3 chunks)))"
proof -
  let ?g = "\<lambda>ch. rows (enrich pd cd (clean E ch))"
  have r: "rows smp = take 50000 (concat (map ?g (take 3 chunks)))"
    unfolding sample_of_load [OF assms]
    by (simp add: iloc_head_def rows_concat_frames take_map comp_def)
  have "concat (map ?g chunks) = concat (map ?g (take 3 chunks)) @ concat (map ?g (drop 3 chunks))"
    by (metis append_take_drop_id concat_append map_append)
  then have "prefix (concat (map ?g (take 3 chunks))) (concat (map ?g chunks))"
    by simp
  then have p: "prefix (rows smp) (concat (map ?g chunks))"
    unfolding r using take_is_prefix prefix_order.trans by blast
  have "length (rows smp) = min (length (concat (map ?g (take 3 chunks)))) 50000"
    unfolding r by simp
  then have l: "length (rows smp) =
      min (sum_list (map (\<lambda>ch. length (rows (clean E ch))) (take 3 chunks))) 50000"
    by (simp only: length_concat_enriched)
  from l p r show ?thesis by blast
qed

lemma columns_enriched_chunks:
  "\<forall>ch \<in> set cs. columns ch = cols \<Longrightarrow> ch \<in> set cs \<Longrightarrow> f \<in> set cs \<Longrightarrow>
     columns (enrich pd cd (clean E ch)) = columns (enrich pd cd (clean E f))"
  by (simp add: columns_enrich_cong columns_clean)

text \<open>
  C10. In a row of the sample whose product id is no key of the product dictionary
  the \<open>product_name\<close> cell is missing (NaN), and likewise the \<open>city\<close> cell for
  a store id that is no key of the city dictionary: the sample carries no fallback
  label.
\<close>

theorem sample_names_are_lookups:
  assumes "load_sales_chunked E n pf cf (Some sales) = Inr (a, smp, p, c)"
    and "lookup_dict ''product_id'' ''product_name'' p = Inr pd"
    and "lookup_dict ''store_id'' ''city'' c = Inr cd"
    and "r \<in> set (rows smp)"
  shows "(''product_id'' \<in> set (columns sales) \<longrightarrow>
            cell_at r (col_index ''product_id'' (columns smp)) \<notin> fst ` set pd \<longrightarrow>
            cell_at r (col_index ''product_name'' (columns smp)) = NaN) \<and>
         (''store_id'' \<in> set (columns sales) \<longrightarrow>
            cell_at r (col_index ''store_id'' (columns smp)) \<notin> fst ` set cd \<longrightarrow>
            cell_at r (col_index ''city'' (columns smp)) = NaN)"
proof -
  from load_sales_chunked_Inr [OF assms(1)] obtain chunks where
    ch: "read_csv_chunks n (Some sales) = Inr chunks" using assms(2,3) by auto
  from read_csv_chunks_Inr [OF ch] have ne: "chunks \<noteq> []"
    and cols: "\<forall>ch \<in> set chunks. columns ch = columns sales" by simp_all
  let ?fs = "take 3 (map (\<lambda>ch. enrich pd cd (clean E ch)) chunks)"
  have smp: "smp = iloc_head 50000 (concat_frames ?fs)"
    by (rule sample_of_load [OF assms(1) ch assms(2,3)])
  have fs_ne: "?fs \<noteq> []" using ne by simp
  have hd_fs: "hd ?fs = enrich pd cd (clean E (hd chunks))"
    using ne by (cases chunks) simp_all
  have csmp: "columns smp = columns (enrich pd cd (clean E (hd chunks)))"
    unfolding smp using fs_ne hd_fs by (simp add: iloc_head_def columns_concat_frames)
  have "r \<in> set (concat (map rows ?fs))"
    using assms(4) unfolding smp by (auto simp: iloc_head_def rows_concat_frames dest: in_set_takeD)
  then obtain x where xs: "x \<in> set ?fs" and rx: "r \<in> set (rows x)" by auto
  from xs have "x \<in> set (map (\<lambda>ch. enrich pd cd (clean E ch)) chunks)" by (rule in_set_takeD)
  with rx obtain ch where chm: "ch \<in> set chunks"
    and rch: "r \<in> set (rows (enrich pd cd (clean E ch)))" by auto
  have "hd chunks \<in> set chunks" using ne by simp
  then have ceq: "columns smp = columns (enrich pd cd (clean E ch))"
    unfolding csmp using columns_enriched_chunks [OF cols _ chm] by simp
  have cc: "columns (clean E ch) = columns sales" using cols chm by (simp add: columns_clean)
  show ?thesis
    unfolding ceq
    using enrich_product_name [OF _ rch] enrich_city [OF _ rch] cc
    by (simp add: dict_get_absent)
qed

section \<open>The revenue maps\<close>



lemma dict_get_dict_set:
  "dict_get (dict_set d k v) k' dflt = (if k' = k then v else dict_get d k' dflt)"
  by (simp add: dict_get_def dict_set_def update_conv')

lemma keys_dict_set: "fst ` set (dict_set d k v) = insert k (fst ` set d)"
  by (simp add: dict_set_def dom_update)

lemma dict_get_add_revenue:
  "dict_get (add_revenue E label names groups acc) name 0 =
     dict_get acc name 0 +
     sum_list (map snd (filter (\<lambda>g. resolve E label names (fst g) = name) groups))"
  unfolding add_revenue_def
  by (induction groups arbitrary: acc) (auto simp: dict_get_dict_set Let_def split_beta)

lemma keys_add_revenue:
  "fst ` set (add_revenue E label names groups acc) =
     fst ` set acc \<union> (\<lambda>g. resolve E label names (fst g)) ` set groups"
  unfolding add_revenue_def
  by (induction groups arbitrary: acc) (auto simp: keys_dict_set Let_def split_beta)

lemma map_of_dict_get: "k \<in> fst ` set d \<Longrightarrow> map_of d k = Some (dict_get d k dflt)"
  by (cases "map_of d k") (auto simp: dict_get_def map_of_eq_None_iff)

lemma sum_delta:
  "distinct K \<Longrightarrow>
     sum_list (map (\<lambda>k. if x = k then (c::real) else 0) K) = (if x \<in> set K then c else 0)"
  by (induction K) auto

lemma sum_groups:
  "distinct K \<Longrightarrow>
     sum_list (map (\<lambda>k. sum_list (map f (filter (\<lambda>p. fst p = k) ps))) K) =
       sum_list (map (f :: 'a \<times> 'b \<Rightarrow> real) (filter (\<lambda>p. fst p \<in> set K) ps))"
proof (induction ps)
  case Nil
  then show ?case by simp
next
  case (Cons p ps)
  have "sum_list (map (\<lambda>k. sum_list (map f (filter (\<lambda>q. fst q = k) (p # ps)))) K) =
        sum_list (map (\<lambda>k. (if fst p = k then f p else 0) +
                            sum_list (map f (filter (\<lambda>q. fst q = k) ps))) K)"
    by (rule arg_cong [where f = sum_list], rule map_cong) auto
  also have "\<dots> = sum_list (map (\<lambda>k. if fst p = k then f p else 0) K) +
                   sum_list (map (\<lambda>k. sum_list (map f (filter (\<lambda>q. fst q = k) ps))) K)"
    by (simp add: sum_list_addf)
  finally show ?case using Cons by (simp add: sum_delta)
qed

lemma distinct_group_keys: "distinct (group_keys ks)"
  by (simp add: group_keys_def)

lemma set_group_keys: "set (group_keys ks) = {k \<in> set ks. k \<noteq> NaN}"
  by (auto simp: group_keys_def)

lemma groupby_sum_selected:
  assumes "groupby_sum ks vs = Inr g"
  shows "sum_list (map snd (filter (\<lambda>x. Q (fst x)) g)) =
         sum_list (map (num_val \<circ> snd) (filter (\<lambda>p. fst p \<noteq> NaN \<and> Q (fst p)) (zip ks vs)))"
proof -
  let ?G = "\<lambda>k. sum_list (map (num_val \<circ> snd) (filter (\<lambda>p. fst p = k) (zip ks vs)))"
  from assms have g: "g = map (\<lambda>k. (k, ?G k)) (group_keys ks)"
    by (simp add: groupby_sum_def split: if_splits)
  have "map snd (filter (\<lambda>x. Q (fst x)) g) = map ?G (filter Q (group_keys ks))"
    unfolding g by (simp add: filter_map comp_def)
  then have "sum_list (map snd (filter (\<lambda>x. Q (fst x)) g)) =
        sum_list (map (num_val \<circ> snd)
          (filter (\<lambda>p. fst p \<in> set (filter Q (group_keys ks))) (zip ks vs)))"
    using sum_groups [of "filter Q (group_keys ks)" "num_val \<circ> snd" "zip ks vs"]
    by (simp add: distinct_group_keys)
  also have "filter (\<lambda>p. fst p \<in> set (filter Q (group_keys ks))) (zip ks vs) =
        filter (\<lambda>p. fst p \<noteq> NaN \<and> Q (fst p)) (zip ks vs)"
    by (rule filter_cong) (auto simp: set_group_keys dest: set_zip_leftD)
  finally show ?thesis .
qed

lemma groupby_sum_keys:
  "groupby_sum ks vs = Inr g \<Longrightarrow> fst ` set g = {k \<in> set ks. k \<noteq> NaN}"
  by (auto simp: groupby_sum_def set_group_keys image_iff split: if_splits)


lemma revenue_by_selected:
  assumes "revenue_by key chunk = Inr g"
  shows "sum_list (map snd (filter (\<lambda>x. resolve E label names (fst x) = name) g)) =
         bucket_revenue E label names key name chunk"
proof (cases "key \<in> set (columns chunk) \<and> ''revenue'' \<in> set (columns chunk)")
  case True
  with assms have "groupby_sum (column key chunk) (column ''revenue'' chunk) = Inr g"
    by (simp add: revenue_by_def)
  from groupby_sum_selected [OF this, of "\<lambda>k. resolve E label names k = name"] True
  show ?thesis by (simp add: bucket_revenue_def)
next
  case False
  with assms have "g = []" by (auto simp: revenue_by_def)
  with False show ?thesis by (auto simp: bucket_revenue_def)
qed


lemma revenue_by_keys:
  assumes "revenue_by key chunk = Inr g"
    and "key \<in> set (columns chunk)" and "''revenue'' \<in> set (columns chunk)"
    and "k \<in> set (column key chunk)" and "k \<noteq> NaN"
  shows "k \<in> fst ` set g"
proof -
  from assms(1-3) have "groupby_sum (column key chunk) (column ''revenue'' chunk) = Inr g"
    by (simp add: revenue_by_def)
  from groupby_sum_keys [OF this] assms(4,5) show ?thesis by simp
qed

lemma process_chunk_maps:
  assumes "process_chunk E pd cd st raw = Inr st'"
  shows "\<exists>pg sg. revenue_by ''product_id'' (clean E raw) = Inr pg \<and>
                 revenue_by ''store_id'' (clean E raw) = Inr sg \<and>
                 product_revenue (agg st') =
                   add_revenue E ''Product '' pd pg (product_revenue (agg st)) \<and>
                 city_revenue (agg st') =
                   add_revenue E ''Store '' cd sg (city_revenue (agg st))"
  using assms
  by (auto simp: process_chunk_def Let_def split: if_splits sum.splits)

lemma process_chunk_bucket:
  assumes "process_chunk E pd cd st raw = Inr st'"
  shows "dict_get (product_revenue (agg st')) name 0 =
           dict_get (product_revenue (agg st)) name 0 +
           bucket_revenue E ''Product '' pd ''product_id'' name (clean E raw)"
    and "dict_get (city_revenue (agg st')) name 0 =
           dict_get (city_revenue (agg st)) name 0 +
           bucket_revenue E ''Store '' cd ''store_id'' name (clean E raw)"
proof -
  from process_chunk_maps [OF assms] obtain pg sg where
    pg: "revenue_by ''product_id'' (clean E raw) = Inr pg"
    and sg: "revenue_by ''store_id'' (clean E raw) = Inr sg"
    and p: "product_revenue (agg st') = add_revenue E ''Product '' pd pg (product_revenue (agg st))"
    and c: "city_revenue (agg st') = add_revenue E ''Store '' cd sg (city_revenue (agg st))"
    by blast
  show "dict_get (product_revenue (agg st')) name 0 =
           dict_get (product_revenue (agg st)) name 0 +
           bucket_revenue E ''Product '' pd ''product_id'' name (clean E raw)"
    unfolding p dict_get_add_revenue revenue_by_selected [OF pg] ..
  show "dict_get (city_revenue (agg st')) name 0 =
           dict_get (city_revenue (agg st)) name 0 +
           bucket_revenue E ''Store '' cd ''store_id'' name (clean E raw)"
    unfolding c dict_get_add_revenue revenue_by_selected [OF sg] ..
qed

lemma process_chunk_keys:
  assumes "process_chunk E pd cd st raw = Inr st'"
  shows "fst ` set (product_revenue (agg st)) \<subseteq> fst ` set (product_revenue (agg st'))"
    and "fst ` set (city_revenue (agg st)) \<subseteq> fst ` set (city_revenue (agg st'))"
    and "''product_id'' \<in> set (columns raw) \<Longrightarrow> ''revenue'' \<in> set (columns raw) \<Longrightarrow>
         k \<in> set (column ''product_id'' (clean E raw)) \<Longrightarrow> k \<noteq> NaN \<Longrightarrow>
         resolve E ''Product '' pd k \<in> fst ` set (product_revenue (agg st'))"
    and "''store_id'' \<in> set (columns raw) \<Longrightarrow> ''revenue'' \<in> set (columns raw) \<Longrightarrow>
         k \<in> set (column ''store_id'' (clean E raw)) \<Longrightarrow> k \<noteq> NaN \<Longrightarrow>
         resolve E ''Store '' cd k \<in> fst ` set (city_revenue (agg st'))"
proof -
  from process_chunk_maps [OF assms] obtain pg sg where
    pg: "revenue_by ''product_id'' (clean E raw) = Inr pg"
    and sg: "revenue_by ''store_id'' (clean E raw) = Inr sg"
    and p: "product_revenue (agg st') = add_revenue E ''Product '' pd pg (product_revenue (agg st))"
    and c: "city_revenue (agg st') = add_revenue E ''Store '' cd sg (city_revenue (agg st))"
    by blast
  show "fst ` set (product_revenue (agg st)) \<subseteq> fst ` set (product_revenue (agg st'))"
    unfolding p keys_add_revenue by blast
  show "fst ` set (city_revenue (agg st)) \<subseteq> fst ` set (city_revenue (agg st'))"
    unfolding c keys_add_revenue by blast
  show "resolve E ''Product '' pd k \<in> fst ` set (product_revenue (agg st'))"
    if "''product_id'' \<in> set (columns raw)" "''revenue'' \<in> set (columns raw)"
      "k \<in> set (column ''product_id'' (clean E raw))" "k \<noteq> NaN"
  proof -
    have "k \<in> fst ` set pg"
      using revenue_by_keys [OF pg] that by (simp add: columns_clean)
    then show ?thesis unfolding p keys_add_revenue by force
  qed
  show "resolve E ''Store '' cd k \<in> fst ` set (city_revenue (agg st'))"
    if "''store_id'' \<in> set (columns raw)" "''revenue'' \<in> set (columns raw)"
      "k \<in> set (column ''store_id'' (clean E raw))" "k \<noteq> NaN"
  proof -
    have "k \<in> fst ` set sg"
      using revenue_by_keys [OF sg] that by (simp add: columns_clean)
    then show ?thesis unfolding c keys_add_revenue by force
  qed
qed



lemma run_loop_bucket:
  "run_loop E pd cd st cs = Inr st' \<Longrightarrow>
     dict_get (product_revenue (agg st')) name 0 =
       dict_get (product_revenue (agg st)) name 0 +
       sum_list (map (\<lambda>c. bucket_revenue E ''Product '' pd ''product_id'' name (clean E c)) cs) \<and>
     dict_get (city_revenue (agg st')) name 0 =
       dict_get (city_revenue (agg st)) name 0 +
       sum_list (map (\<lambda>c. bucket_revenue E ''Store '' cd ''store_id'' name (clean E c)) cs)"
proof (induction cs arbitrary: st)
  case Nil
  then show ?case by simp
next
  case (Cons c cs)
  then obtain st1 where st1: "process_chunk E pd cd st c = Inr st1"
    and rest: "run_loop E pd cd st1 cs = Inr st'"
    by (auto split: sum.splits)
  show ?case
    using Cons.IH [OF rest] process_chunk_bucket [OF st1, of name] by simp
qed

lemma run_loop_keys_mono:
  "run_loop E pd cd st cs = Inr st' \<Longrightarrow>
     fst ` set (product_revenue (agg st)) \<subseteq> fst ` set (product_revenue (agg st')) \<and>
     fst ` set (city_revenue (agg st)) \<subseteq> fst ` set (city_revenue (agg st'))"
proof (induction cs arbitrary: st)
  case Nil
  then show ?case by simp
next
  case (Cons c cs)
  then obtain st1 where st1: "process_chunk E pd cd st c = Inr st1"
    and rest: "run_loop E pd cd st1 cs = Inr st'"
    by (auto split: sum.splits)
  note ih = Cons.IH [OF rest]
  have "fst ` set (product_revenue (agg st)) \<subseteq> fst ` set (product_revenue (agg st'))"
    by (rule subset_trans [OF process_chunk_keys(1) [OF st1] ih [THEN conjunct1]])
  moreover have "fst ` set (city_revenue (agg st)) \<subseteq> fst ` set (city_revenue (agg st'))"
    by (rule subset_trans [OF process_chunk_keys(2) [OF st1] ih [THEN conjunct2]])
  ultimately show ?case ..
qed

lemma run_loop_keys:
  "run_loop E pd cd st cs = Inr st' \<Longrightarrow> c \<in> set cs \<Longrightarrow> ''revenue'' \<in> set (columns c) \<Longrightarrow>
   k \<noteq> NaN \<Longrightarrow>
     (''product_id'' \<in> set (columns c) \<longrightarrow> k \<in> set (column ''product_id'' (clean E c)) \<longrightarrow>
        resolve E ''Product '' pd k \<in> fst ` set (product_revenue (agg st'))) \<and>
     (''store_id'' \<in> set (columns c) \<longrightarrow> k \<in> set (column ''store_id'' (clean E c)) \<longrightarrow>
        resolve E ''Store '' cd k \<in> fst ` set (city_revenue (agg st')))"
proof (induction cs arbitrary: st)
  case Nil
  then show ?case by simp
next
  case (Cons x cs)
  then obtain st1 where st1: "process_chunk E pd cd st x = Inr st1"
    and rest: "run_loop E pd cd st1 cs = Inr st'"
    by (auto split: sum.splits)
  show ?case
  proof (cases "c = x")
    case True
    note m = run_loop_keys_mono [OF rest]
    have "resolve E ''Product '' pd k \<in> fst ` set (product_revenue (agg st'))"
      if "''product_id'' \<in> set (columns c)" "k \<in> set (column ''product_id'' (clean E c))"
      using process_chunk_keys(3) [OF st1, of k] that Cons.prems(3,4) True
        m [THEN conjunct1] by (simp add: subset_iff)
    moreover have "resolve E ''Store '' cd k \<in> fst ` set (city_revenue (agg st'))"
      if "''store_id'' \<in> set (columns c)" "k \<in> set (column ''store_id'' (clean E c))"
      using process_chunk_keys(4) [OF st1, of k] that Cons.prems(3,4) True
        m [THEN conjunct2] by (simp add: subset_iff)
    ultimately show ?thesis by simp
  next
    case False
    with Cons.prems(2) have "c \<in> set cs" by simp
    from Cons.IH [OF rest this Cons.prems(3,4)] show ?thesis .
  qed
qed

lemma resolve_absent:
  "k \<notin> fst ` set names \<Longrightarrow> resolve E label names k = Str (label @ str_of E k)"
  by (simp add: resolve_def dict_get_absent)





text \<open>
  C7. A product id \<open>k\<close> that occurs in a cleaned chunk and is no key of the product
  dictionary has the bucket \<open>Product k\<close> in the product revenue map, and the bucket
  holds the revenue of every row whose id is resolved to that label, the rows with
  the id \<open>k\<close> among them (\<open>resolve_absent\<close>). Likewise for a store id and the
  bucket \<open>Store k\<close> of the city revenue map.
\<close>

theorem fallback_bucket_holds_revenue:
  assumes "load_sales_chunked E n pf cf sf = Inr (a, smp, p, c)"
    and "read_csv_chunks n sf = Inr chunks"
    and "lookup_dict ''product_id'' ''product_name'' p = Inr pd"
    and "lookup_dict ''store_id'' ''city'' c = Inr cd"
    and "ch \<in> set chunks" and "''revenue'' \<in> set (columns ch)" and "k \<noteq> NaN"
  shows "(''product_id'' \<in> set (columns ch) \<longrightarrow>
            k \<in> set (column ''product_id'' (clean E ch)) \<longrightarrow> k \<notin> fst ` set pd \<longrightarrow>
            map_of (product_revenue a) (Str (''Product '' @ str_of E k)) =
              Some (sum_list (map (\<lambda>x. bucket_revenue E ''Product '' pd ''product_id''
                                          (Str (''Product '' @ str_of E k)) (clean E x)) chunks))) \<and>
         (''store_id'' \<in> set (columns ch) \<longrightarrow>
            k \<in> set (column ''store_id'' (clean E ch)) \<longrightarrow> k \<notin> fst ` set cd \<longrightarrow>
            map_of (city_revenue a) (Str (''Store '' @ str_of E k)) =
              Some (sum_list (map (\<lambda>x. bucket_revenue E ''Store '' cd ''store_id''
                                          (Str (''Store '' @ str_of E k)) (clean E x)) chunks)))"
proof -
  from load_sales_chunked_Inr [OF assms(1)] assms(2-4) obtain st where
    loop: "run_loop E pd cd init_state chunks = Inr st"
    and fin: "finish st p c = Inr (a, smp, p, c)" by auto
  have pa: "product_revenue a = product_revenue (agg st)"
    and ca: "city_revenue a = city_revenue (agg st)"
    using finish_Inr [OF fin] by simp_all
  note keys = run_loop_keys [OF loop assms(5-7)]
  note bucket = run_loop_bucket [OF loop]
  have "map_of (product_revenue a) (Str (''Product '' @ str_of E k)) =
          Some (sum_list (map (\<lambda>x. bucket_revenue E ''Product '' pd ''product_id''
                                      (Str (''Product '' @ str_of E k)) (clean E x)) chunks))"
    if "''product_id'' \<in> set (columns ch)" "k \<in> set (column ''product_id'' (clean E ch))"
      "k \<notin> fst ` set pd"
  proof -
    let ?name = "Str (''Product '' @ str_of E k)"
    have "?name \<in> fst ` set (product_revenue (agg st))"
      using keys [THEN conjunct1] that by (simp add: resolve_absent)
    then have "map_of (product_revenue (agg st)) ?name =
               Some (dict_get (product_revenue (agg st)) ?name 0)"
      by (rule map_of_dict_get)
    then show ?thesis
      unfolding pa using bucket [of ?name, THEN conjunct1] by (simp add: init_state_def dict_get_def)
  qed
  moreover have "map_of (city_revenue a) (Str (''Store '' @ str_of E k)) =
          Some (sum_list (map (\<lambda>x. bucket_revenue E ''Store '' cd ''store_id''
                                      (Str (''Store '' @ str_of E k)) (clean E x)) chunks))"
    if "''store_id'' \<in> set (columns ch)" "k \<in> set (column ''store_id'' (clean E ch))"
      "k \<notin> fst ` set cd"
  proof -
    let ?name = "Str (''Store '' @ str_of E k)"
    have "?name \<in> fst ` set (city_revenue (agg st))"
      using keys [THEN conjunct2] that by (simp add: resolve_absent)
    then have "map_of (city_revenue (agg st)) ?name =
               Some (dict_get (city_revenue (agg st)) ?name 0)"
      by (rule map_of_dict_get)
    then show ?thesis
      unfolding ca using bucket [of ?name, THEN conjunct2] by (simp add: init_state_def dict_get_def)
  qed
  ultimately show ?thesis by blast
qed

section \<open>Runs on the example files\<close>

lemma example_lookups:
  "lookup_dict ''product_id'' ''product_name'' example_products = Inr [(Num 1, Str ''Tea'')]"
  "lookup_dict ''store_id'' ''city'' example_cities = Inr [(Num 1, Str ''Pune'')]"
  by (simp_all add: pipeline_defs example_defs)

lemma example_load_1:
  "load_sales_chunked example_env 1 (Some example_products) (Some example_cities)
       (Some example_sales) =
     Inr (\<lparr>total_revenue = 10, total_transactions = 4, min_date = Some 0,
            max_date = Some 86400000000000,
            product_revenue = [(Str ''Tea'', 5), (Str ''Product 7'', 5)],
            city_revenue = [(Str ''Pune'', 7), (Str ''Store 9'', 3)], dates = []\<rparr>,
          \<lparr>columns = [''date'', ''revenue'', ''product_id'', ''store_id'', ''product_name'',
                       ''city''],
            rows = [[Timestamp 86400000000000, Num 5, Num 1, Num 1, Str ''Tea'', Str ''Pune''],
                    [Timestamp 0, Num 3, Num 7, Num 9, NaN, NaN],
                    [NaN, Num 2, Num 7, Num 1, NaN, Str ''Pune'']]\<rparr>,
          example_products, example_cities)"
  by (simp add: pipeline_defs example_defs split_rows_Nil split_rows_Cons str_nat_digit)

lemma example_chunks_1:
  "read_csv_chunks 1 (Some example_sales) =
     Inr (map (\<lambda>r. \<lparr>columns = [''date'', ''revenue'', ''product_id'', ''store_id''], rows = [r]\<rparr>)
            (rows example_sales))"
  by (simp add: read_csv_chunks_def example_defs split_rows_Nil split_rows_Cons)







theorem sample_is_capped_prefix_witness:
  "\<exists>a smp. load_sales_chunked example_env 1 (Some example_products) (Some example_cities)
              (Some example_sales) = Inr (a, smp, example_products, example_cities) \<and>
           length (rows smp) = 3 \<and> total_transactions a = 4"
proof -
  let ?smp = "\<lparr>columns = [''date'', ''revenue'', ''product_id'', ''store_id'', ''product_name'',
                       ''city''],
            rows = [[Timestamp 86400000000000, Num 5, Num 1, Num 1, Str ''Tea'', Str ''Pune''],
                    [Timestamp 0, Num 3, Num 7, Num 9, NaN, NaN],
                    [NaN, Num 2, Num 7, Num 1, NaN, Str ''Pune'']]\<rparr>"
  note t = sample_is_capped_prefix [OF example_load_1 example_chunks_1 example_lookups]
  have "length (rows ?smp) =
        min (sum_list (map (\<lambda>ch. length (rows (clean example_env ch)))
          (take 3 (map (\<lambda>r. \<lparr>columns = [''date'', ''revenue'', ''product_id'', ''store_id''],
                                 rows = [r]\<rparr>) (rows example_sales))))) 50000"
    by (rule t [THEN conjunct1])
  also have "\<dots> = 3"
    by (simp add: pipeline_defs example_defs)
  finally show ?thesis using example_load_1 by simp
qed

theorem sample_names_witness:
  "\<exists>a smp r. load_sales_chunked example_env 1 (Some example_products) (Some example_cities)
              (Some example_sales) = Inr (a, smp, example_products, example_cities) \<and>
           r \<in> set (rows smp) \<and>
           cell_at r (col_index ''product_id'' (columns smp)) = Num 7 \<and>
           cell_at r (col_index ''product_name'' (columns smp)) = NaN \<and>
           cell_at r (col_index ''store_id'' (columns smp)) = Num 9 \<and>
           cell_at r (col_index ''city'' (columns smp)) = NaN"
proof -
  let ?smp = "\<lparr>columns = [''date'', ''revenue'', ''product_id'', ''store_id'', ''product_name'',
                       ''city''],
            rows = [[Timestamp 86400000000000, Num 5, Num 1, Num 1, Str ''Tea'', Str ''Pune''],
                    [Timestamp 0, Num 3, Num 7, Num 9, NaN, NaN],
                    [NaN, Num 2, Num 7, Num 1, NaN, Str ''Pune'']]\<rparr>"
  let ?r = "[Timestamp 0, Num 3, Num 7, Num 9, NaN, NaN]"
  have r: "?r \<in> set (rows ?smp)" by simp
  have c: "''product_id'' \<in> set (columns example_sales)" "''store_id'' \<in> set (columns example_sales)"
    by (simp_all add: example_defs)
  have i: "cell_at ?r (col_index ''product_id'' (columns ?smp)) = Num 7"
    "cell_at ?r (col_index ''store_id'' (columns ?smp)) = Num 9"
    by (simp_all add: cell_at_def)
  from sample_names_are_lookups [OF example_load_1 example_lookups r] c i
  have "cell_at ?r (col_index ''product_name'' (columns ?smp)) = NaN"
    and "cell_at ?r (col_index ''city'' (columns ?smp)) = NaN" by simp_all
  with i r example_load_1 show ?thesis by blast
qed



theorem fallback_bucket_witness:
  "\<exists>a smp. load_sales_chunked example_env 1 (Some example_products) (Some example_cities)
              (Some example_sales) = Inr (a, smp, example_products, example_cities) \<and>
           map_of (product_revenue a) (Str ''Product 7'') = Some 5 \<and>
           map_of (city_revenue a) (Str ''Store 9'') = Some 3"
proof -
  let ?ch = "\<lparr>columns = [''date'', ''revenue'', ''product_id'', ''store_id''],
              rows = [[NaN, Num 3, Num 7, Num 9]]\<rparr>"
  let ?a = "\<lparr>total_revenue = 10, total_transactions = 4, min_date = Some 0,
            max_date = Some 86400000000000,
            product_revenue = [(Str ''Tea'', 5), (Str ''Product 7'', 5)],
            city_revenue = [(Str ''Pune'', 7), (Str ''Store 9'', 3)], dates = []\<rparr>"
  have m: "?ch \<in> set (map (\<lambda>r. \<lparr>columns = [''date'', ''revenue'', ''product_id'', ''store_id''],
                                  rows = [r]\<rparr>) (rows example_sales))"
    by (simp add: example_defs)
  have rv: "''revenue'' \<in> set (columns ?ch)" by simp
  note t7 = fallback_bucket_holds_revenue [OF example_load_1 example_chunks_1 example_lookups m rv,
      of "Num 7", THEN conjunct1]
  note t9 = fallback_bucket_holds_revenue [OF example_load_1 example_chunks_1 example_lookups m rv,
      of "Num 9", THEN conjunct2]
  have k7: "''product_id'' \<in> set (columns ?ch)"
    "Num 7 \<in> set (column ''product_id'' (clean example_env ?ch))"
    "Num 7 \<notin> fst ` set [(Num 1, Str ''Tea'')]"
    by (simp_all add: pipeline_defs example_defs)
  have k9: "''store_id'' \<in> set (columns ?ch)"
    "Num 9 \<in> set (column ''store_id'' (clean example_env ?ch))"
    "Num 9 \<notin> fst ` set [(Num 1, Str ''Pune'')]"
    by (simp_all add: pipeline_defs example_defs)
  have s7: "str_of example_env (Num 7) = ''7''" and s9: "str_of example_env (Num 9) = ''9''"
    by (simp_all add: example_env_def str_nat_digit)
  have "map_of (product_revenue ?a) (Str ''Product 7'') =
        Some (sum_list (map (\<lambda>x. bucket_revenue example_env ''Product '' [(Num 1, Str ''Tea'')]
                 ''product_id'' (Str ''Product 7'') (clean example_env x))
               (map (\<lambda>r. \<lparr>columns = [''date'', ''revenue'', ''product_id'', ''store_id''],
                                  rows = [r]\<rparr>) (rows example_sales))))"
    using t7 k7 s7 by simp
  moreover have "map_of (city_revenue ?a) (Str ''Store 9'') =
        Some (sum_list (map (\<lambda>x. bucket_revenue example_env ''Store '' [(Num 1, Str ''Pune'')]
                 ''store_id'' (Str ''Store 9'') (clean example_env x))
               (map (\<lambda>r. \<lparr>columns = [''date'', ''revenue'', ''product_id'', ''store_id''],
                                  rows = [r]\<rparr>) (rows example_sales))))"
    using t9 k9 s9 by simp
  ultimately show ?thesis using example_load_1 by simp
qed

end
